theory Spec2Isabelle
  imports Main "HOL-Library.Sublist"
begin

section \<open>The enqueuers of keras\_extensions/utils/data\_utils.py\<close>

text \<open>
  The module runs several threads over shared objects: the scheduling thread
  (\<^verbatim>\<open>OrderedEnqueuer._run\<close>), the pool workers executing \<^verbatim>\<open>get_index\<close>, the consumer
  that drives the generator returned by \<^verbatim>\<open>get()\<close>, and a caller that may invoke
  \<^verbatim>\<open>stop()\<close>. The embedding is an interleaving model: every thread has a program
  counter naming the source line it is about to execute, one step executes one access
  to the shared objects, and a blocking call is a step that is not enabled. A schedule
  is the list of threads that move, one after the other.
\<close>

subsection \<open>Values\<close>

text \<open>A task is the argument pair \<^verbatim>\<open>(e_idx, b_idx)\<close> handed to \<^verbatim>\<open>get_index\<close>; the
  \<^verbatim>\<open>ApplyResult\<close> that \<^verbatim>\<open>apply_async\<close> returns is identified with its task.\<close>

type_synonym task = "int \<times> nat"

datatype exn =
    AttributeError
  | AssertionError
  | KeyError
  | TypeError
  | ValueError
  | BatchError string
  | StopIteration exn

text \<open>What \<^verbatim>\<open>get_batch\<close> does: it returns a batch, returns \<^verbatim>\<open>None\<close>, or raises.\<close>

datatype 'a outcome = Returns "'a option" | Raises exn

text \<open>An entry of a module-level dictionary (\<^verbatim>\<open>_SHARED_SEQUENCES\<close>, \<^verbatim>\<open>_SHARED_DICTS\<close>)
  under the enqueuer's uuid: no such key, the value \<^verbatim>\<open>None\<close>, or an object.\<close>

datatype 'x slot = Absent | PyNone | Obj 'x

text \<open>\<^verbatim>\<open>queue.Queue(maxsize)\<close>: a FIFO; \<^verbatim>\<open>maxsize <= 0\<close> means unbounded.\<close>

record 'f bqueue =
  maxsize :: int
  items :: "'f list"

definition Queue :: "int \<Rightarrow> 'f bqueue" where
  "Queue n = \<lparr>maxsize = n, items = []\<rparr>"

definition full :: "'f bqueue \<Rightarrow> bool" where
  "full q = (0 < maxsize q \<and> maxsize q \<le> int (length (items q)))"

text \<open>\<^verbatim>\<open>multiprocessing.Pool\<close> / \<^verbatim>\<open>ThreadPool\<close>: whether \<^verbatim>\<open>close()\<close> was called, the
  tasks submitted and not yet executed, and the results of the executed ones.\<close>

record 'a pool =
  closed :: bool
  pending :: "task list"
  results :: "(task \<times> 'a outcome) list"

definition Pool :: "'a pool" where
  "Pool = \<lparr>closed = False, pending = [], results = []\<rparr>"

subsection \<open>Program counters\<close>

text \<open>\<^verbatim>\<open>OrderedEnqueuer.stop\<close>, lines 304 to 322.\<close>

datatype stop_pc =
    K_set          \<comment> \<open>304: \<^verbatim>\<open>self.stop_signal.set()\<close>\<close>
  | K_clear        \<comment> \<open>306-309: clear the queue under its mutex, notify \<^verbatim>\<open>not_full\<close>\<close>
  | K_close        \<comment> \<open>311: \<^verbatim>\<open>self.executor.close()\<close>\<close>
  | K_join_pool    \<comment> \<open>312: \<^verbatim>\<open>self.executor.join()\<close>\<close>
  | K_join_thread  \<comment> \<open>313: \<^verbatim>\<open>self.run_thread.join(timeout)\<close>\<close>
  | K_unshare      \<comment> \<open>317: \<^verbatim>\<open>_SHARED_SEQUENCES[self.uuid] = None\<close>\<close>
  | K_cleanup      \<comment> \<open>319-322: clear and drop the shared dict\<close>
  | K_returned
  | K_raised exn

text \<open>\<^verbatim>\<open>OrderedEnqueuer._run\<close>, lines 230 to 253, with \<^verbatim>\<open>_send_sequence\<close>
  (lines 278 to 292) inlined; its flag says which of the two calls is running:
  \<^verbatim>\<open>True\<close> for line 231, \<^verbatim>\<open>False\<close> for line 252.\<close>

datatype run_pc =
    R_begin                 \<comment> \<open>230: \<^verbatim>\<open>sequence = list(range(len(self.sequence)))\<close>\<close>
  | R_send_publish bool     \<comment> \<open>278, 280\<close>
  | R_send_clear bool       \<comment> \<open>284: \<^verbatim>\<open>self.clear_shared_dict()\<close>\<close>
  | R_send_loop bool        \<comment> \<open>286: the loop condition\<close>
  | R_send_apply bool       \<comment> \<open>289: \<^verbatim>\<open>self.executor.apply(_update_sequence, ...)\<close>\<close>
  | R_head                  \<comment> \<open>235-240: the epoch limit and the shuffle\<close>
  | R_for "nat list"        \<comment> \<open>242-244: next index, stop check; the indices left\<close>
  | R_submit nat "nat list" \<comment> \<open>246: \<^verbatim>\<open>self.executor.apply_async(...)\<close>\<close>
  | R_put task "nat list"   \<comment> \<open>246: \<^verbatim>\<open>self.queue.put(..., block=True)\<close>\<close>
  | R_drain                 \<comment> \<open>248: \<^verbatim>\<open>while not self.queue.empty(): pass\<close>\<close>
  | R_epoch_end             \<comment> \<open>251: \<^verbatim>\<open>self.sequence.on_epoch_end()\<close>\<close>
  | R_inc                   \<comment> \<open>253: \<^verbatim>\<open>self.e_idx += 1\<close>\<close>
  | R_exited                \<comment> \<open>the thread has left \<^verbatim>\<open>_run\<close> by \<^verbatim>\<open>break\<close> or \<^verbatim>\<open>return\<close>\<close>
  | R_crashed exn           \<comment> \<open>the thread has died of an uncaught exception\<close>

text \<open>The generator of \<^verbatim>\<open>OrderedEnqueuer.get\<close>, lines 264 to 272, driven by the
  consumer.\<close>

datatype get_pc =
    G_loop                  \<comment> \<open>265: \<^verbatim>\<open>while self.is_running()\<close>\<close>
  | G_get                   \<comment> \<open>266: \<^verbatim>\<open>self.queue.get(block=True)\<close>\<close>
  | G_result task           \<comment> \<open>266-268: \<^verbatim>\<open>.get()\<close> on the future, then the yield\<close>
  | G_stop stop_pc exn      \<comment> \<open>271: inside \<^verbatim>\<open>self.stop()\<close>, the caught exception kept\<close>
  | G_raised exn            \<comment> \<open>272: the generator has ended by raising\<close>
  | G_finished              \<comment> \<open>the loop condition failed: the generator is exhausted\<close>

text \<open>A thread other than the generator calling \<^verbatim>\<open>stop(timeout)\<close>.\<close>

datatype call_pc =
    Idle
  | Stopping stop_pc
  | Returned
  | Crashed exn

subsection \<open>History\<close>

text \<open>The events of a run, in the order they happen. The history is written by the
  model only; no step reads it.\<close>

datatype 'a event =
    Publish                 \<comment> \<open>line 278 executed\<close>
  | Submit task             \<comment> \<open>\<^verbatim>\<open>apply_async\<close> accepted the task\<close>
  | Put task                \<comment> \<open>the future entered the queue\<close>
  | Got task                \<comment> \<open>\<^verbatim>\<open>queue.get\<close> returned the future\<close>
  | Yield task 'a           \<comment> \<open>line 268\<close>
  | Skip task               \<comment> \<open>the result was \<^verbatim>\<open>None\<close>\<close>
  | Failed task exn         \<comment> \<open>resolving the future raised\<close>
  | EpochEnd                \<comment> \<open>line 251 executed\<close>
  | EpochInc                \<comment> \<open>line 253 executed\<close>
  | Cleared                 \<comment> \<open>line 307 executed\<close>

subsection \<open>The OrderedEnqueuer object and the module globals\<close>

record ('s, 'a) enqueuer =
  sequence :: 's                       \<comment> \<open>the state of the \<^verbatim>\<open>Sequence\<close> object\<close>
  use_multiprocessing :: bool
  shuffle :: bool
  workers :: int
  executor :: "'a pool option"
  queue :: "task bqueue option"
  run_thread :: "run_pc option"
  stop_signal :: "bool option"         \<comment> \<open>\<^verbatim>\<open>None\<close>, or the Event and whether it is set\<close>
  e_idx :: int
  max_epoch :: "int option"
  order :: "nat list"                  \<comment> \<open>the local \<^verbatim>\<open>sequence\<close> of \<^verbatim>\<open>_run\<close>\<close>
  shared_sequence :: "unit slot"       \<comment> \<open>\<^verbatim>\<open>_SHARED_SEQUENCES[uuid]\<close>; an object is \<^verbatim>\<open>self.sequence\<close> itself\<close>
  shared_dict :: "nat list slot"       \<comment> \<open>\<^verbatim>\<open>_SHARED_DICTS[uuid]\<close>: the pids that are its keys\<close>
  worker_sequence :: "(nat \<times> 's) list" \<comment> \<open>\<^verbatim>\<open>_SHARED_SEQUENCES[uuid]\<close> inside each worker process\<close>
  consumer :: get_pc
  yielded :: "'a list"
  caller :: call_pc
  trace :: "'a event list"

text \<open>What the model takes from outside: the \<^verbatim>\<open>Sequence\<close> interface (lines 28 to 57),
  the outcome of \<^verbatim>\<open>random.shuffle\<close> at each epoch, and the \<^verbatim>\<open>timeout\<close> a caller passes to
  \<^verbatim>\<open>stop\<close>.\<close>

record ('s, 'a) world =
  seq_len :: "'s \<Rightarrow> nat"
  get_batch :: "'s \<Rightarrow> int \<Rightarrow> nat \<Rightarrow> 'a outcome"
  on_epoch_end :: "'s \<Rightarrow> 's"
  random_shuffle :: "int \<Rightarrow> nat list \<Rightarrow> nat list"
  timeout :: "nat option"

text \<open>\<^verbatim>\<open>OrderedEnqueuer.__init__\<close>, lines 183 to 196.\<close>

definition init :: "'s \<Rightarrow> bool \<Rightarrow> bool \<Rightarrow> int \<Rightarrow> int option \<Rightarrow> ('s, 'a) enqueuer" where
  "init sq mp sh initial_epoch mx =
     \<lparr>sequence = sq, use_multiprocessing = mp, shuffle = sh, workers = 0,
      executor = None, queue = None, run_thread = None, stop_signal = None,
      e_idx = initial_epoch, max_epoch = mx, order = [],
      shared_sequence = Absent, shared_dict = Absent, worker_sequence = [],
      consumer = G_loop, yielded = [], caller = Idle, trace = []\<rparr>"

text \<open>Line 205.\<close>

definition is_running :: "('s, 'a) enqueuer \<Rightarrow> bool" where
  "is_running s = (stop_signal s \<noteq> None \<and> \<not> the (stop_signal s))"

text \<open>\<^verbatim>\<open>OrderedEnqueuer.start\<close>, lines 215 to 226. \<^verbatim>\<open>Pool(processes)\<close> raises
  \<^verbatim>\<open>ValueError\<close> when \<^verbatim>\<open>processes < 1\<close>; \<^verbatim>\<open>_initialize_globals\<close> stores the manager's
  dictionary for the uuid.\<close>

definition start :: "int \<Rightarrow> int \<Rightarrow> ('s, 'a) enqueuer \<Rightarrow> exn + ('s, 'a) enqueuer" where
  "start wk max_queue_size s =
     (let s1 = (if use_multiprocessing s then s\<lparr>shared_dict := Obj []\<rparr> else s)
      in if wk < 1 then Inl ValueError
         else Inr (s1\<lparr>executor := Some Pool, workers := wk,
                       queue := Some (Queue max_queue_size),
                       stop_signal := Some False,
                       run_thread := Some R_begin\<rparr>))"

subsection \<open>The steps of \<^verbatim>\<open>stop\<close>\<close>

definition log :: "'a event \<Rightarrow> ('s, 'a) enqueuer \<Rightarrow> ('s, 'a) enqueuer" where
  "log ev s = s\<lparr>trace := trace s @ [ev]\<rparr>"

text \<open>\<^verbatim>\<open>clear_shared_dict\<close>, lines 330 to 335.\<close>

definition clear_shared_dict :: "('s, 'a) enqueuer \<Rightarrow> ('s, 'a) enqueuer" where
  "clear_shared_dict s =
     (case shared_dict s of Obj d \<Rightarrow> s\<lparr>shared_dict := Obj []\<rparr> | _ \<Rightarrow> s)"

definition thread_ended :: "run_pc \<Rightarrow> bool" where
  "thread_ended r = (case r of R_exited \<Rightarrow> True | R_crashed e \<Rightarrow> True | _ \<Rightarrow> False)"

text \<open>One step of \<^verbatim>\<open>stop(tmo)\<close> at the given line. \<^verbatim>\<open>None\<close>: the call is blocked
  there (or is over). An attribute access on \<^verbatim>\<open>None\<close> raises \<^verbatim>\<open>AttributeError\<close>.
  \<^verbatim>\<open>Pool.join\<close> returns once every submitted task has been executed;
  \<^verbatim>\<open>Thread.join(None)\<close> returns once the thread has ended, and with a timeout it may
  return before.\<close>

fun stop_step ::
  "nat option \<Rightarrow> stop_pc \<Rightarrow> ('s, 'a) enqueuer \<Rightarrow> (stop_pc \<times> ('s, 'a) enqueuer) option" where
  "stop_step tmo K_set s =
     (case stop_signal s of
        None \<Rightarrow> Some (K_raised AttributeError, s)
      | Some b \<Rightarrow> Some (K_clear, s\<lparr>stop_signal := Some True\<rparr>))"
| "stop_step tmo K_clear s =
     (case queue s of
        None \<Rightarrow> Some (K_raised AttributeError, s)
      | Some q \<Rightarrow> Some (K_close, log Cleared (s\<lparr>queue := Some (q\<lparr>items := []\<rparr>)\<rparr>)))"
| "stop_step tmo K_close s =
     (case executor s of
        None \<Rightarrow> Some (K_raised AttributeError, s)
      | Some p \<Rightarrow> Some (K_join_pool, s\<lparr>executor := Some (p\<lparr>closed := True\<rparr>)\<rparr>))"
| "stop_step tmo K_join_pool s =
     (case executor s of
        None \<Rightarrow> Some (K_raised AttributeError, s)
      | Some p \<Rightarrow>
          if \<not> closed p then Some (K_raised AssertionError, s)
          else if pending p = [] then Some (K_join_thread, s) else None)"
| "stop_step tmo K_join_thread s =
     (case run_thread s of
        None \<Rightarrow> Some (K_raised AttributeError, s)
      | Some r \<Rightarrow>
          if thread_ended r \<or> tmo \<noteq> None then Some (K_unshare, s) else None)"
| "stop_step tmo K_unshare s =
     Some (if use_multiprocessing s then K_cleanup else K_returned,
           s\<lparr>shared_sequence := PyNone\<rparr>)"
| "stop_step tmo K_cleanup s =
     (case shared_dict s of
        Obj d \<Rightarrow> Some (K_returned, (clear_shared_dict s)\<lparr>shared_dict := PyNone\<rparr>)
      | _ \<Rightarrow> Some (K_returned, s))"
| "stop_step tmo K_returned s = None"
| "stop_step tmo (K_raised e) s = None"

subsection \<open>The scheduling thread\<close>

definition set_run :: "run_pc \<Rightarrow> ('s, 'a) enqueuer \<Rightarrow> ('s, 'a) enqueuer" where
  "set_run r s = s\<lparr>run_thread := Some r\<rparr>"

definition crash :: "exn \<Rightarrow> ('s, 'a) enqueuer \<Rightarrow> ('s, 'a) enqueuer option" where
  "crash e s = Some (set_run (R_crashed e) s)"

text \<open>Where \<^verbatim>\<open>_send_sequence\<close> returns to: line 233 after the call of line 231, line
  253 after the call of line 252.\<close>

definition send_return :: "bool \<Rightarrow> run_pc" where
  "send_return ini = (if ini then R_head else R_inc)"

text \<open>\<^verbatim>\<open>random.shuffle\<close> permutes its argument in place. The world proposes the new
  order; it is taken when it is a permutation of the old one.\<close>

definition shuffled :: "('s, 'a) world \<Rightarrow> int \<Rightarrow> nat list \<Rightarrow> nat list" where
  "shuffled w e xs =
     (let ys = random_shuffle w e xs in if sort ys = sort xs then ys else xs)"

text \<open>One step of \<^verbatim>\<open>_run\<close>. The busy wait of line 248 is a step that is enabled once
  the queue is empty; \<^verbatim>\<open>put\<close> is enabled once the queue is not full. \<^verbatim>\<open>apply_async\<close>
  on a closed pool fails its assertion, which ends the thread.\<close>

fun run_step ::
  "('s, 'a) world \<Rightarrow> run_pc \<Rightarrow> ('s, 'a) enqueuer \<Rightarrow> ('s, 'a) enqueuer option" where
  "run_step w R_begin s =
     Some (set_run (R_send_publish True) (s\<lparr>order := [0 ..< seq_len w (sequence s)]\<rparr>))"
| "run_step w (R_send_publish ini) s =
     Some (set_run (if use_multiprocessing s then R_send_clear ini else send_return ini)
             (log Publish (s\<lparr>shared_sequence := Obj ()\<rparr>)))"
| "run_step w (R_send_clear ini) s =
     Some (set_run (R_send_loop ini) (clear_shared_dict s))"
| "run_step w (R_send_loop ini) s =
     (case shared_dict s of
        Absent \<Rightarrow> crash KeyError s
      | PyNone \<Rightarrow> crash TypeError s
      | Obj d \<Rightarrow>
          if int (length d) < workers s then
            (case stop_signal s of
               None \<Rightarrow> crash AttributeError s
             | Some b \<Rightarrow>
                 Some (set_run (if b then send_return ini else R_send_apply ini) s))
          else Some (set_run (send_return ini) s))"
| "run_step w (R_send_apply ini) s = None"
| "run_step w R_head s =
     (if (case max_epoch s of None \<Rightarrow> False | Some m \<Rightarrow> m \<le> e_idx s)
      then Some (set_run R_exited s)
      else
        let ord = (if shuffle s then shuffled w (e_idx s) (order s) else order s)
        in Some (set_run (R_for ord) (s\<lparr>order := ord\<rparr>)))"
| "run_step w (R_for []) s = Some (set_run R_drain s)"
| "run_step w (R_for (b # bs)) s =
     (case stop_signal s of
        None \<Rightarrow> crash AttributeError s
      | Some stopped \<Rightarrow>
          Some (set_run (if stopped then R_exited else R_submit b bs) s))"
| "run_step w (R_submit b bs) s =
     (case executor s of
        None \<Rightarrow> crash AttributeError s
      | Some p \<Rightarrow>
          if closed p then crash AssertionError s
          else Some (set_run (R_put (e_idx s, b) bs)
                 (log (Submit (e_idx s, b))
                    (s\<lparr>executor := Some (p\<lparr>pending := pending p @ [(e_idx s, b)]\<rparr>)\<rparr>))))"
| "run_step w (R_put t bs) s =
     (case queue s of
        None \<Rightarrow> crash AttributeError s
      | Some q \<Rightarrow>
          if full q then None
          else Some (set_run (R_for bs)
                 (log (Put t) (s\<lparr>queue := Some (q\<lparr>items := items q @ [t]\<rparr>)\<rparr>))))"
| "run_step w R_drain s =
     (case queue s of
        None \<Rightarrow> crash AttributeError s
      | Some q \<Rightarrow> if items q = [] then Some (set_run R_epoch_end s) else None)"
| "run_step w R_epoch_end s =
     Some (set_run (R_send_publish False)
             (log EpochEnd (s\<lparr>sequence := on_epoch_end w (sequence s)\<rparr>)))"
| "run_step w R_inc s =
     Some (set_run R_head (log EpochInc (s\<lparr>e_idx := e_idx s + 1\<rparr>)))"
| "run_step w R_exited s = None"
| "run_step w (R_crashed e) s = None"

text \<open>\<^verbatim>\<open>_update_sequence\<close>, lines 93 to 96, run by the worker process \<^verbatim>\<open>pid\<close>.\<close>

definition update_sequence :: "nat \<Rightarrow> ('s, 'a) enqueuer \<Rightarrow> exn + ('s, 'a) enqueuer" where
  "update_sequence pid s =
     (case shared_dict s of
        Absent \<Rightarrow> Inl KeyError
      | PyNone \<Rightarrow> Inl TypeError
      | Obj d \<Rightarrow>
          if pid \<in> set d then Inr s
          else Inr (s\<lparr>worker_sequence := (pid, sequence s) # worker_sequence s,
                       shared_dict := Obj (d @ [pid])\<rparr>))"

text \<open>Line 289, \<^verbatim>\<open>self.executor.apply(_update_sequence, ...)\<close>: the pool hands the call
  to the worker \<^verbatim>\<open>pid\<close>, whose exception \<^verbatim>\<open>apply\<close> raises again.\<close>

definition apply_ack :: "nat \<Rightarrow> bool \<Rightarrow> ('s, 'a) enqueuer \<Rightarrow> ('s, 'a) enqueuer option" where
  "apply_ack pid ini s =
     (case executor s of
        None \<Rightarrow> crash AttributeError s
      | Some p \<Rightarrow>
          if closed p then crash AssertionError s
          else (case update_sequence pid s of
                  Inl e \<Rightarrow> crash e s
                | Inr s' \<Rightarrow> Some (set_run (R_send_loop ini) s')))"

text \<open>Lines 290 to 292: a \<^verbatim>\<open>socket_error\<close> is logged and leaves the loop.\<close>

definition apply_socket_error :: "bool \<Rightarrow> ('s, 'a) enqueuer \<Rightarrow> ('s, 'a) enqueuer option" where
  "apply_socket_error ini s = Some (set_run (send_return ini) s)"

subsection \<open>The pool workers\<close>

text \<open>\<^verbatim>\<open>get_index\<close>, lines 84 to 85. Worker threads read the module's own
  \<^verbatim>\<open>_SHARED_SEQUENCES\<close>, whose entry is the live \<^verbatim>\<open>Sequence\<close>; a worker process reads
  the copy that \<^verbatim>\<open>_update_sequence\<close> left in it.\<close>

definition get_index :: "('s, 'a) world \<Rightarrow> nat \<Rightarrow> task \<Rightarrow> ('s, 'a) enqueuer \<Rightarrow> 'a outcome" where
  "get_index w pid t s =
     (if use_multiprocessing s then
        (case map_of (worker_sequence s) pid of
           None \<Rightarrow> Raises KeyError
         | Some sq \<Rightarrow> get_batch w sq (fst t) (snd t))
      else
        (case shared_sequence s of
           Absent \<Rightarrow> Raises KeyError
         | PyNone \<Rightarrow> Raises AttributeError
         | Obj u \<Rightarrow> get_batch w (sequence s) (fst t) (snd t)))"

text \<open>A worker executes one of the pending tasks, any of them, and stores its
  result.\<close>

definition work_step ::
  "('s, 'a) world \<Rightarrow> nat \<Rightarrow> task \<Rightarrow> ('s, 'a) enqueuer \<Rightarrow> ('s, 'a) enqueuer option" where
  "work_step w pid t s =
     (case executor s of
        None \<Rightarrow> None
      | Some p \<Rightarrow>
          if t \<in> set (pending p)
          then Some (s\<lparr>executor :=
                 Some (p\<lparr>pending := remove1 t (pending p),
                         results := results p @ [(t, get_index w pid t s)]\<rparr>)\<rparr>)
          else None)"

subsection \<open>The generator of \<^verbatim>\<open>get\<close>\<close>

text \<open>One step of the generator. \<^verbatim>\<open>queue.get(block=True)\<close> is enabled once the queue
  holds a future, and resolving the future once its task has been executed. Every
  exception raised inside the \<^verbatim>\<open>try\<close> reaches the handler of line 269, which calls
  \<^verbatim>\<open>stop()\<close> with no timeout and then raises \<^verbatim>\<open>StopIteration(e)\<close>; an exception
  that \<^verbatim>\<open>stop()\<close> raises leaves the generator instead.\<close>

definition after_stop :: "exn \<Rightarrow> stop_pc \<Rightarrow> get_pc" where
  "after_stop e k =
     (case k of
        K_returned \<Rightarrow> G_raised (StopIteration e)
      | K_raised e' \<Rightarrow> G_raised e'
      | _ \<Rightarrow> G_stop k e)"

fun get_step :: "get_pc \<Rightarrow> ('s, 'a) enqueuer \<Rightarrow> ('s, 'a) enqueuer option" where
  "get_step G_loop s =
     Some (s\<lparr>consumer := (if is_running s then G_get else G_finished)\<rparr>)"
| "get_step G_get s =
     (case queue s of
        None \<Rightarrow> Some (s\<lparr>consumer := G_stop K_set AttributeError\<rparr>)
      | Some q \<Rightarrow>
          (case items q of
             [] \<Rightarrow> None
           | f # fs \<Rightarrow>
               Some (log (Got f) (s\<lparr>queue := Some (q\<lparr>items := fs\<rparr>),
                                     consumer := G_result f\<rparr>))))"
| "get_step (G_result f) s =
     (case executor s of
        None \<Rightarrow> None
      | Some p \<Rightarrow>
          (case map_of (results p) f of
             None \<Rightarrow> None
           | Some (Returns None) \<Rightarrow> Some (log (Skip f) (s\<lparr>consumer := G_loop\<rparr>))
           | Some (Returns (Some x)) \<Rightarrow>
               Some (log (Yield f x) (s\<lparr>yielded := yielded s @ [x], consumer := G_loop\<rparr>))
           | Some (Raises e) \<Rightarrow>
               Some (log (Failed f e) (s\<lparr>consumer := G_stop K_set e\<rparr>))))"
| "get_step (G_stop k e) s =
     (case stop_step None k s of
        None \<Rightarrow> None
      | Some (k', s') \<Rightarrow> Some (s'\<lparr>consumer := after_stop e k'\<rparr>))"
| "get_step (G_raised e) s = None"
| "get_step G_finished s = None"

subsection \<open>A caller of \<^verbatim>\<open>stop\<close>\<close>

text \<open>Another thread calls \<^verbatim>\<open>stop(timeout)\<close>, as often as it likes, until a call
  raises.\<close>

definition after_call :: "stop_pc \<Rightarrow> call_pc" where
  "after_call k =
     (case k of K_returned \<Rightarrow> Returned | K_raised e \<Rightarrow> Crashed e | _ \<Rightarrow> Stopping k)"

definition call_step ::
  "('s, 'a) world \<Rightarrow> call_pc \<Rightarrow> ('s, 'a) enqueuer \<Rightarrow> ('s, 'a) enqueuer option" where
  "call_step w c s =
     (case c of
        Crashed e \<Rightarrow> None
      | _ \<Rightarrow>
         (case stop_step (timeout w) (case c of Stopping k \<Rightarrow> k | _ \<Rightarrow> K_set) s of
            None \<Rightarrow> None
          | Some (k', s') \<Rightarrow> Some (s'\<lparr>caller := after_call k'\<rparr>)))"

subsection \<open>Schedules\<close>

datatype label =
    Sched            \<comment> \<open>the scheduling thread moves\<close>
  | Ack nat          \<comment> \<open>line 289 is served by the worker with this pid\<close>
  | SockErr          \<comment> \<open>line 289 raises \<^verbatim>\<open>socket_error\<close>\<close>
  | Work nat task    \<comment> \<open>the worker with this pid executes the task\<close>
  | Consume          \<comment> \<open>the generator of \<^verbatim>\<open>get\<close> moves\<close>
  | Call             \<comment> \<open>the caller of \<^verbatim>\<open>stop\<close> moves\<close>

fun step ::
  "('s, 'a) world \<Rightarrow> label \<Rightarrow> ('s, 'a) enqueuer \<Rightarrow> ('s, 'a) enqueuer option" where
  "step w Sched s = (case run_thread s of None \<Rightarrow> None | Some r \<Rightarrow> run_step w r s)"
| "step w (Ack pid) s =
     (case run_thread s of Some (R_send_apply ini) \<Rightarrow> apply_ack pid ini s | _ \<Rightarrow> None)"
| "step w SockErr s =
     (case run_thread s of Some (R_send_apply ini) \<Rightarrow> apply_socket_error ini s | _ \<Rightarrow> None)"
| "step w (Work pid t) s = work_step w pid t s"
| "step w Consume s = get_step (consumer s) s"
| "step w Call s = call_step w (caller s) s"

fun exec ::
  "('s, 'a) world \<Rightarrow> label list \<Rightarrow> ('s, 'a) enqueuer \<Rightarrow> ('s, 'a) enqueuer option" where
  "exec w [] s = Some s"
| "exec w (l # ls) s = (case step w l s of None \<Rightarrow> None | Some s' \<Rightarrow> exec w ls s')"

section \<open>GeneratorEnqueuer\<close>

text \<open>\<^verbatim>\<open>data_generator_task\<close>, lines 373 to 382, one copy per worker.\<close>

datatype 'a task_pc =
    T_loop          \<comment> \<open>373: \<^verbatim>\<open>while not self._stop_event.is_set()\<close>\<close>
  | T_check         \<comment> \<open>375: the multiprocessing flag, else \<^verbatim>\<open>qsize() < max_queue_size\<close>\<close>
  | T_next          \<comment> \<open>376: \<^verbatim>\<open>next(self._generator)\<close>\<close>
  | T_put 'a        \<comment> \<open>377: \<^verbatim>\<open>self.queue.put(generator_output)\<close>, the output kept\<close>
  | T_exited        \<comment> \<open>the loop condition failed\<close>
  | T_died exn      \<comment> \<open>381-382: the stop event set, the exception raised again\<close>

text \<open>The generator of \<^verbatim>\<open>GeneratorEnqueuer.get\<close>, lines 446 to 452.\<close>

datatype gen_get_pc =
    GG_loop         \<comment> \<open>446: \<^verbatim>\<open>while self.is_running()\<close>\<close>
  | GG_check        \<comment> \<open>447: \<^verbatim>\<open>if not self.queue.empty()\<close>\<close>
  | GG_get          \<comment> \<open>448-450: \<^verbatim>\<open>self.queue.get()\<close>, then the yield\<close>
  | GG_raised exn
  | GG_finished

text \<open>The object. A worker is its program counter and, for a worker process, its own
  copy of the generator; \<^verbatim>\<open>limit\<close> is the \<^verbatim>\<open>max_queue_size\<close> that
  \<^verbatim>\<open>data_generator_task\<close> closes over.\<close>

record ('g, 'a) generator_enqueuer =
  gen_generator :: 'g
  gen_use_multiprocessing :: bool
  gen_threads :: "('a option task_pc \<times> 'g) list"
  gen_stop_event :: "bool option"
  gen_queue :: "'a option bqueue option"
  gen_random_seed :: "int option"
  gen_limit :: int
  gen_consumer :: gen_get_pc
  gen_yielded :: "'a list"

text \<open>\<^verbatim>\<open>GeneratorEnqueuer.__init__\<close>, lines 355 to 361.\<close>

definition gen_init :: "'g \<Rightarrow> bool \<Rightarrow> int option \<Rightarrow> ('g, 'a) generator_enqueuer" where
  "gen_init g mp seed =
     \<lparr>gen_generator = g, gen_use_multiprocessing = mp, gen_threads = [],
      gen_stop_event = None, gen_queue = None, gen_random_seed = seed,
      gen_limit = 0, gen_consumer = GG_loop, gen_yielded = []\<rparr>"

text \<open>Line 410.\<close>

definition gen_is_running :: "('g, 'a) generator_enqueuer \<Rightarrow> bool" where
  "gen_is_running s = (gen_stop_event s \<noteq> None \<and> \<not> the (gen_stop_event s))"

text \<open>\<^verbatim>\<open>GeneratorEnqueuer.start\<close>, lines 384 to 404: a bounded
  \<^verbatim>\<open>multiprocessing.Queue(maxsize=max_queue_size)\<close> for worker processes, an unbounded
  \<^verbatim>\<open>queue.Queue()\<close> for worker threads; then \<^verbatim>\<open>range(workers)\<close> workers are started, a
  process taking a copy of the generator and moving the seed on by one.\<close>

definition gen_start ::
  "int \<Rightarrow> int \<Rightarrow> ('g, 'a) generator_enqueuer \<Rightarrow> ('g, 'a) generator_enqueuer" where
  "gen_start wk max_queue_size s =
     s\<lparr>gen_queue := Some (Queue (if gen_use_multiprocessing s then max_queue_size else 0)),
       gen_stop_event := Some False,
       gen_limit := max_queue_size,
       gen_threads := gen_threads s @ replicate (nat wk) (T_loop, gen_generator s),
       gen_random_seed :=
         (if gen_use_multiprocessing s
          then map_option (\<lambda>r. r + int (nat wk)) (gen_random_seed s)
          else gen_random_seed s)\<rparr>"

definition alive :: "'a task_pc \<Rightarrow> bool" where
  "alive t = (case t of T_exited \<Rightarrow> False | T_died e \<Rightarrow> False | _ \<Rightarrow> True)"

text \<open>\<^verbatim>\<open>GeneratorEnqueuer.stop\<close>, lines 420 to 436. A live worker process is
  terminated; a live worker thread is joined, which leaves it as it is when the
  timeout passes first. The three attributes are reset whatever happened before.\<close>

definition gen_stop ::
  "nat option \<Rightarrow> ('g, 'a) generator_enqueuer \<Rightarrow> exn + ('g, 'a) generator_enqueuer" where
  "gen_stop tmo s =
     (let s1 = (if gen_is_running s then s\<lparr>gen_stop_event := Some True\<rparr> else s);
          s2 = s1\<lparr>gen_threads :=
                 map (\<lambda>(t, g). if alive t \<and> gen_use_multiprocessing s1
                                then (T_exited, g) else (t, g)) (gen_threads s1)\<rparr>
      in Inr (s2\<lparr>gen_threads := [], gen_stop_event := None, gen_queue := None\<rparr>))"

text \<open>What the model takes from outside: \<^verbatim>\<open>next\<close> on the generator returns a value
  (which may be \<^verbatim>\<open>None\<close>) or raises, and leaves the generator in a new state.\<close>

type_synonym ('g, 'a) producer = "'g \<Rightarrow> (exn + 'a option) \<times> 'g"

definition set_thread ::
  "nat \<Rightarrow> 'a option task_pc \<times> 'g \<Rightarrow> ('g, 'a) generator_enqueuer
     \<Rightarrow> ('g, 'a) generator_enqueuer" where
  "set_thread i t s = s\<lparr>gen_threads := (gen_threads s)[i := t]\<rparr>"

text \<open>Lines 380 to 382: the handler sets the stop event and raises again.\<close>

definition thread_fails ::
  "nat \<Rightarrow> 'g \<Rightarrow> exn \<Rightarrow> ('g, 'a) generator_enqueuer \<Rightarrow> ('g, 'a) generator_enqueuer" where
  "thread_fails i g e s =
     (case gen_stop_event s of
        None \<Rightarrow> set_thread i (T_died AttributeError, g) s
      | Some b \<Rightarrow> set_thread i (T_died e, g) (s\<lparr>gen_stop_event := Some True\<rparr>))"

text \<open>One step of the worker \<^verbatim>\<open>i\<close>. Worker threads share the generator of the
  object; a worker process advances its own copy. \<^verbatim>\<open>put\<close> blocks on a full bounded
  queue only: the queue of worker threads has no bound, and line 375 is all that
  holds them back.\<close>

definition task_step ::
  "('g, 'a) producer \<Rightarrow> nat \<Rightarrow> ('g, 'a) generator_enqueuer
     \<Rightarrow> ('g, 'a) generator_enqueuer option" where
  "task_step nxt i s =
     (if length (gen_threads s) \<le> i then None
      else
        let (pc, g) = gen_threads s ! i in
        case pc of
          T_loop \<Rightarrow>
            (case gen_stop_event s of
               None \<Rightarrow> Some (set_thread i (T_died AttributeError, g) s)
             | Some b \<Rightarrow> Some (set_thread i (if b then T_exited else T_check, g) s))
        | T_check \<Rightarrow>
            (if gen_use_multiprocessing s then Some (set_thread i (T_next, g) s)
             else (case gen_queue s of
                     None \<Rightarrow> Some (thread_fails i g AttributeError s)
                   | Some q \<Rightarrow>
                       if int (length (items q)) < gen_limit s
                       then Some (set_thread i (T_next, g) s)
                       else Some (set_thread i (T_loop, g) s)))
        | T_next \<Rightarrow>
            (if gen_use_multiprocessing s then
               (case nxt g of
                  (Inl e, g') \<Rightarrow> Some (thread_fails i g' e s)
                | (Inr v, g') \<Rightarrow> Some (set_thread i (T_put v, g') s))
             else
               (case nxt (gen_generator s) of
                  (Inl e, g') \<Rightarrow> Some (thread_fails i g e (s\<lparr>gen_generator := g'\<rparr>))
                | (Inr v, g') \<Rightarrow> Some (set_thread i (T_put v, g) (s\<lparr>gen_generator := g'\<rparr>))))
        | T_put v \<Rightarrow>
            (case gen_queue s of
               None \<Rightarrow> Some (thread_fails i g AttributeError s)
             | Some q \<Rightarrow>
                 if full q then None
                 else Some (set_thread i (T_loop, g)
                        (s\<lparr>gen_queue := Some (q\<lparr>items := items q @ [v]\<rparr>)\<rparr>)))
        | T_exited \<Rightarrow> None
        | T_died e \<Rightarrow> None)"

text \<open>One step of the generator of \<^verbatim>\<open>get\<close>: it polls, and takes an item only after
  it has seen the queue non-empty.\<close>

fun gen_get_step ::
  "gen_get_pc \<Rightarrow> ('g, 'a) generator_enqueuer \<Rightarrow> ('g, 'a) generator_enqueuer option" where
  "gen_get_step GG_loop s =
     Some (s\<lparr>gen_consumer := (if gen_is_running s then GG_check else GG_finished)\<rparr>)"
| "gen_get_step GG_check s =
     (case gen_queue s of
        None \<Rightarrow> Some (s\<lparr>gen_consumer := GG_raised AttributeError\<rparr>)
      | Some q \<Rightarrow> Some (s\<lparr>gen_consumer := (if items q \<noteq> [] then GG_get else GG_loop)\<rparr>))"
| "gen_get_step GG_get s =
     (case gen_queue s of
        None \<Rightarrow> Some (s\<lparr>gen_consumer := GG_raised AttributeError\<rparr>)
      | Some q \<Rightarrow>
          (case items q of
             [] \<Rightarrow> None
           | v # vs \<Rightarrow>
               Some (s\<lparr>gen_queue := Some (q\<lparr>items := vs\<rparr>),
                       gen_yielded := gen_yielded s @ (case v of None \<Rightarrow> [] | Some x \<Rightarrow> [x]),
                       gen_consumer := GG_loop\<rparr>)))"
| "gen_get_step (GG_raised e) s = None"
| "gen_get_step GG_finished s = None"

datatype gen_label = Task nat | GenConsume

fun gen_step ::
  "('g, 'a) producer \<Rightarrow> gen_label \<Rightarrow> ('g, 'a) generator_enqueuer
     \<Rightarrow> ('g, 'a) generator_enqueuer option" where
  "gen_step nxt (Task i) s = task_step nxt i s"
| "gen_step nxt GenConsume s = gen_get_step (gen_consumer s) s"

fun gen_exec ::
  "('g, 'a) producer \<Rightarrow> gen_label list \<Rightarrow> ('g, 'a) generator_enqueuer
     \<Rightarrow> ('g, 'a) generator_enqueuer option" where
  "gen_exec nxt [] s = Some s"
| "gen_exec nxt (l # ls) s =
     (case gen_step nxt l s of None \<Rightarrow> None | Some s' \<Rightarrow> gen_exec nxt ls s')"

section \<open>The wait for the workers' acknowledgements\<close>




section \<open>Observations of a run\<close>

subsection \<open>Projections of the history\<close>

text \<open>The tasks submitted, the futures that \<^verbatim>\<open>get\<close> has resolved (yielded, skipped or
  failed), and the yields with their items, each in the order of the history.\<close>

definition submits :: "'a event list \<Rightarrow> task list" where
  "submits tr = concat (map (\<lambda>ev. case ev of Submit t \<Rightarrow> [t] | _ \<Rightarrow> []) tr)"

definition resolved :: "'a event list \<Rightarrow> task list" where
  "resolved tr =
     concat (map (\<lambda>ev. case ev of Yield t x \<Rightarrow> [t] | Skip t \<Rightarrow> [t] | Failed t e \<Rightarrow> [t]
                          | _ \<Rightarrow> []) tr)"

definition yields :: "'a event list \<Rightarrow> (task \<times> 'a) list" where
  "yields tr = concat (map (\<lambda>ev. case ev of Yield t x \<Rightarrow> [(t, x)] | _ \<Rightarrow> []) tr)"

subsection \<open>Where the futures are\<close>


definition queued :: "('s, 'a) enqueuer \<Rightarrow> task list" where
  "queued s = (case queue s of None \<Rightarrow> [] | Some q \<Rightarrow> items q)"




subsection \<open>Invariants\<close>

text \<open>After \<^verbatim>\<open>start\<close> the four attributes are objects, and stay so.\<close>

definition started :: "('s, 'a) enqueuer \<Rightarrow> bool" where
  "started s =
     (executor s \<noteq> None \<and> queue s \<noteq> None \<and> run_thread s \<noteq> None \<and> stop_signal s \<noteq> None)"



subsection \<open>Acknowledgements\<close>



subsection \<open>Queue sizes\<close>

text \<open>The bound of the OrderedEnqueuer's queue; and for the GeneratorEnqueuer the items
  in its queue, the workers that are past the test of line 375 and have not put yet,
  and the bound that holds with \<^verbatim>\<open>n\<close> workers and \<^verbatim>\<open>max_queue_size = c\<close>.\<close>

definition bounded :: "int \<Rightarrow> ('s, 'a) enqueuer \<Rightarrow> bool" where
  "bounded c s =
     (case queue s of
        None \<Rightarrow> True
      | Some q \<Rightarrow> maxsize q = c \<and> (0 < c \<longrightarrow> int (length (items q)) \<le> c))"

definition gen_queued :: "('g, 'a) generator_enqueuer \<Rightarrow> 'a option list" where
  "gen_queued s = (case gen_queue s of None \<Rightarrow> [] | Some q \<Rightarrow> items q)"

definition past_check :: "'a task_pc \<times> 'g \<Rightarrow> bool" where
  "past_check t = (case fst t of T_next \<Rightarrow> True | T_put v \<Rightarrow> True | _ \<Rightarrow> False)"

definition gen_bounded :: "nat \<Rightarrow> int \<Rightarrow> bool \<Rightarrow> ('g, 'a) generator_enqueuer \<Rightarrow> bool" where
  "gen_bounded n c mp s =
     (0 < c \<and> gen_limit s = c \<and> gen_use_multiprocessing s = mp \<and>
      length (gen_threads s) = n \<and>
      (case gen_queue s of
         None \<Rightarrow> True
       | Some q \<Rightarrow>
           if mp
           then maxsize q = c \<and> int (length (items q)) \<le> c
           else int (length (items q)) + int (length (filter past_check (gen_threads s)))
                  \<le> c - 1 + int n))"

definition gen_qsize :: "('g, 'a) generator_enqueuer \<Rightarrow> nat" where
  "gen_qsize s = length (gen_queued s)"

section \<open>Runs on concrete inputs\<close>

text \<open>Two indices, two futures in the queue, and the second task finishing before the
  first.\<close>

definition order_world :: "(unit, task) world" where
  "order_world =
     \<lparr>seq_len = (\<lambda>sq. 2), get_batch = (\<lambda>sq e b. Returns (Some (e, b))),
      on_epoch_end = (\<lambda>sq. sq), random_shuffle = (\<lambda>e xs. xs), timeout = None\<rparr>"

definition order_start :: "(unit, task) enqueuer" where
  "order_start = (case start 2 2 (init () False False 0 None) of Inr s \<Rightarrow> s)"

definition order_schedule :: "label list" where
  "order_schedule =
     [Sched, Sched, Sched, Sched, Sched, Sched, Sched, Sched, Sched,
      Work 1 (0, 1), Work 0 (0, 0),
      Consume, Consume, Consume, Consume, Consume, Consume]"

definition order_final :: "(unit, task) enqueuer" where
  "order_final = the (exec order_world order_schedule order_start)"






text \<open>A GeneratorEnqueuer with two worker threads and \<^verbatim>\<open>max_queue_size = 1\<close> over a
  counter: both workers pass line 375 while the queue is empty, then both put.\<close>

definition counter :: "(nat, nat) producer" where
  "counter g = (Inr (Some g), Suc g)"

definition overfill_start :: "(nat, nat) generator_enqueuer" where
  "overfill_start = gen_start 2 1 (gen_init 0 False None)"

definition overfill_schedule :: "gen_label list" where
  "overfill_schedule = [Task 0, Task 1, Task 0, Task 1, Task 0, Task 0, Task 1, Task 1]"

definition overfill_final :: "(nat, nat) generator_enqueuer" where
  "overfill_final = the (gen_exec counter overfill_schedule overfill_start)"

definition polled :: "(nat, nat) generator_enqueuer" where
  "polled = the (gen_exec counter [GenConsume, GenConsume] overfill_final)"

text \<open>An OrderedEnqueuer with a queue of one: the scheduling thread holds the second
  future while the first is still in the queue.\<close>

definition blocked_schedule :: "label list" where
  "blocked_schedule = [Sched, Sched, Sched, Sched, Sched, Sched, Sched, Sched, Consume]"

definition blocked_start :: "(unit, task) enqueuer" where
  "blocked_start = (case start 1 1 (init () False False 0 None) of Inr s \<Rightarrow> s)"

definition blocked_state :: "(unit, task) enqueuer" where
  "blocked_state = the (exec order_world blocked_schedule blocked_start)"

section \<open>Proofs\<close>

subsection \<open>Schedules and steps\<close>

lemmas step_defs = set_run_def log_def crash_def send_return_def clear_shared_dict_def
  apply_ack_def apply_socket_error_def update_sequence_def work_step_def

lemmas eval_defs = start_def init_def Pool_def Queue_def step_defs full_def is_running_def
  get_index_def Let_def upt_rec thread_ended_def after_stop_def after_call_def call_step_def

lemma exec_invariant:
  assumes "exec w ls s0 = Some s" and "P s0"
    and "\<And>l s s'. l \<in> set ls \<Longrightarrow> P s \<Longrightarrow> step w l s = Some s' \<Longrightarrow> P s'"
  shows "P s"
  using assms
proof (induction ls arbitrary: s0)
  case Nil
  then show ?case by simp
next
  case (Cons l ls)
  from Cons.prems(1) obtain s1 where s1: "step w l s0 = Some s1" "exec w ls s1 = Some s"
    by (auto split: option.splits)
  have "P s1" using Cons.prems(3)[of l s0 s1] Cons.prems(2) s1 by simp
  moreover have "P s'" if "l' \<in> set ls" "P s" "step w l' s = Some s'" for l' s s'
    using Cons.prems(3)[of l' s s'] that by simp
  ultimately show ?case using Cons.IH[OF s1(2)] by blast
qed

lemma get_step_stop:
  "get_step (G_stop k e) s = Some s' \<Longrightarrow>
     \<exists>k' s1. stop_step None k s = Some (k', s1) \<and> s' = s1\<lparr>consumer := after_stop e k'\<rparr>"
  by (cases "stop_step None k s") auto

lemma call_step_stop:
  "call_step w c s = Some s' \<Longrightarrow>
     \<exists>k k' s1. stop_step (timeout w) k s = Some (k', s1) \<and> s' = s1\<lparr>caller := after_call k'\<rparr>"
  by (cases c) (auto simp: call_step_def simp del: stop_step.simps split: option.splits)




subsection \<open>The attributes stay set\<close>

lemma stop_step_started: "stop_step tmo k s = Some (k', s') \<Longrightarrow> started s \<Longrightarrow> started s'"
  by (cases k) (auto simp: started_def step_defs split: option.splits if_splits slot.splits)

lemma run_step_started: "run_step w r s = Some s' \<Longrightarrow> started s \<Longrightarrow> started s'"
  by (cases "(w, r, s)" rule: run_step.cases)
     (auto simp: started_def step_defs Let_def split: option.splits if_splits slot.splits)

lemma get_step_started: "get_step c s = Some s' \<Longrightarrow> started s \<Longrightarrow> started s'"
proof (cases c)
  case (G_stop k e)
  assume a: "get_step c s = Some s'" "started s"
  with G_stop obtain k' s1
    where "stop_step None k s = Some (k', s1)" "s' = s1\<lparr>consumer := after_stop e k'\<rparr>"
    by (blast dest: get_step_stop)
  with a stop_step_started[of None k s k' s1] show ?thesis by (simp add: started_def)
qed (auto simp: step_defs started_def split: option.splits if_splits list.splits outcome.splits)

lemma call_step_started: "call_step w c s = Some s' \<Longrightarrow> started s \<Longrightarrow> started s'"
  by (drule call_step_stop) (auto dest!: stop_step_started simp: started_def)

lemma step_started: "step w l s = Some s' \<Longrightarrow> started s \<Longrightarrow> started s'"
  apply (cases l)
  apply (auto simp: run_step_started get_step_started call_step_started
           split: option.splits run_pc.splits)
       apply (auto simp: started_def step_defs split: option.splits if_splits slot.splits sum.splits)
  done

subsection \<open>The queue is first in, first out\<close>

lemma submits_snoc [simp]:
  "submits (tr @ [ev]) = submits tr @ (case ev of Submit t \<Rightarrow> [t] | _ \<Rightarrow> [])"
  by (simp add: submits_def)

lemma resolved_snoc [simp]:
  "resolved (tr @ [ev]) =
     resolved tr @ (case ev of Yield t x \<Rightarrow> [t] | Skip t \<Rightarrow> [t] | Failed t e \<Rightarrow> [t] | _ \<Rightarrow> [])"
  by (simp add: resolved_def)

lemma yields_snoc [simp]:
  "yields (tr @ [ev]) = yields tr @ (case ev of Yield t x \<Rightarrow> [(t, x)] | _ \<Rightarrow> [])"
  by (simp add: yields_def)












subsection \<open>The stop signal stays set\<close>











subsection \<open>The acknowledgement wait\<close>





subsection \<open>Queue bounds\<close>

lemmas gen_eval_defs = gen_start_def gen_init_def task_step_def set_thread_def thread_fails_def
  Queue_def full_def gen_is_running_def Let_def

lemmas order_defs = order_final_def order_start_def order_world_def order_schedule_def

lemmas blocked_defs = blocked_state_def blocked_start_def blocked_schedule_def order_world_def

lemmas overfill_defs = overfill_final_def overfill_start_def overfill_schedule_def counter_def
  polled_def

lemma stop_step_bounded: "stop_step tmo k s = Some (k', s') \<Longrightarrow> bounded c s \<Longrightarrow> bounded c s'"
  by (cases k) (auto simp: bounded_def step_defs split: option.splits if_splits slot.splits)

lemma run_step_bounded: "run_step w r s = Some s' \<Longrightarrow> bounded c s \<Longrightarrow> bounded c s'"
  by (cases "(w, r, s)" rule: run_step.cases)
     (auto simp: bounded_def step_defs Let_def full_def split: option.splits if_splits slot.splits)

lemma get_step_bounded: "get_step c s = Some s' \<Longrightarrow> bounded n s \<Longrightarrow> bounded n s'"
proof (cases c)
  case (G_stop k e)
  assume a: "get_step c s = Some s'" "bounded n s"
  with G_stop obtain k' s1
    where "stop_step None k s = Some (k', s1)" "s' = s1\<lparr>consumer := after_stop e k'\<rparr>"
    by (blast dest: get_step_stop)
  with a stop_step_bounded[of None k s k' s1 n] show ?thesis by (simp add: bounded_def)
qed (auto simp: step_defs bounded_def split: option.splits if_splits list.splits outcome.splits)

lemma call_step_bounded: "call_step w c s = Some s' \<Longrightarrow> bounded n s \<Longrightarrow> bounded n s'"
  by (drule call_step_stop) (auto dest!: stop_step_bounded simp: bounded_def)

lemma step_bounded: "step w l s = Some s' \<Longrightarrow> bounded n s \<Longrightarrow> bounded n s'"
  apply (cases l)
  apply (auto simp: run_step_bounded get_step_bounded call_step_bounded
           split: option.splits run_pc.splits)
       apply (auto simp: bounded_def step_defs split: option.splits if_splits slot.splits sum.splits)
  done

lemma filter_update_length:
  "i < length xs \<Longrightarrow>
   int (length (filter P (xs[i := y]))) =
     int (length (filter P xs)) - (if P (xs ! i) then 1 else 0) + (if P y then 1 else 0)"
proof (induction xs arbitrary: i)
  case Nil
  then show ?case by simp
next
  case (Cons x xs)
  show ?case
  proof (cases i)
    case 0
    then show ?thesis by simp
  next
    case (Suc n)
    with Cons.prems have "n < length xs" by simp
    from Cons.IH[OF this] Suc show ?thesis by (auto split: if_splits)
  qed
qed

lemma filter_not_all:
  "i < length xs \<Longrightarrow> \<not> P (xs ! i) \<Longrightarrow> length (filter P xs) < length xs"
  by (metis length_filter_less nth_mem)


lemma task_step_gen_bounded:
  assumes "task_step nxt i s = Some s'" "gen_bounded n c mp s"
  shows "gen_bounded n c mp s'"
proof -
  from assms(1) have i: "i < length (gen_threads s)"
    by (auto simp: task_step_def split: if_splits)
  obtain pc g where t: "gen_threads s ! i = (pc, g)" by (cases "gen_threads s ! i")
  have upd: "int (length (filter past_check ((gen_threads s)[i := y]))) =
      int (length (filter past_check (gen_threads s))) - (if past_check (pc, g) then 1 else 0)
        + (if past_check y then 1 else 0)" for y
    using filter_update_length[OF i, of past_check y] t by simp
  have lt: "\<not> past_check (pc, g) \<Longrightarrow>
      int (length (filter past_check (gen_threads s))) + 1 \<le> int (length (gen_threads s))"
    using filter_not_all[OF i, of past_check] t by simp
  show ?thesis
    using assms i t upd lt
    by (cases pc)
       (auto simp: task_step_def gen_bounded_def set_thread_def thread_fails_def past_check_def
          full_def Let_def split: option.splits if_splits prod.splits sum.splits)
qed

lemma gen_get_step_gen_bounded:
  "gen_get_step pc s = Some s' \<Longrightarrow> gen_bounded n c mp s \<Longrightarrow> gen_bounded n c mp s'"
  by (cases pc) (auto simp: gen_bounded_def split: option.splits if_splits list.splits)

lemma gen_step_gen_bounded: "gen_step nxt l s = Some s' \<Longrightarrow> gen_bounded n c mp s \<Longrightarrow> gen_bounded n c mp s'"
  by (cases l) (auto simp: task_step_gen_bounded gen_get_step_gen_bounded)

lemma gen_exec_invariant:
  assumes "gen_exec nxt ls s0 = Some s" and "P s0"
    and "\<And>l s s'. P s \<Longrightarrow> gen_step nxt l s = Some s' \<Longrightarrow> P s'"
  shows "P s"
  using assms(1,2)
proof (induction ls arbitrary: s0)
  case Nil
  then show ?case by simp
next
  case (Cons l ls)
  from Cons.prems(1) obtain s1 where s1: "gen_step nxt l s0 = Some s1" "gen_exec nxt ls s1 = Some s"
    by (auto split: option.splits)
  have "P s1" using assms(3)[of s0 l s1] Cons.prems(2) s1 by simp
  then show ?case using Cons.IH[OF s1(2)] by blast
qed

lemma start_bounded: "start wk c (init sq mp sh e0 mx) = Inr s0 \<Longrightarrow> bounded c s0"
  by (auto simp: start_def init_def bounded_def Queue_def split: if_splits)

lemma gen_start_bounded:
  "1 \<le> c \<Longrightarrow> gen_bounded (nat gwk) c gmp (gen_start gwk c (gen_init g gmp seed))"
  by (simp add: gen_start_def gen_init_def gen_bounded_def Queue_def past_check_def)

section \<open>The claims\<close>

subsection \<open>Delivery in submission order\<close>



subsection \<open>is\_running before start\<close>

text \<open>
  C9. On a freshly constructed instance of either enqueuer, before \<^verbatim>\<open>start()\<close> was
  ever called, \<^verbatim>\<open>is_running()\<close> returns false: the stop signal is still \<^verbatim>\<open>None\<close>, the
  first conjunct of line 205 (line 410) fails, and nothing is dereferenced, so no
  error is raised.
\<close>

theorem is_running_fresh:
  "is_running (init sq mp sh e0 mx) = False \<and> gen_is_running (gen_init g gmp seed) = False"
  by (simp add: is_running_def init_def gen_is_running_def gen_init_def)

subsection \<open>stop before start\<close>

text \<open>
  C3. Calling \<^verbatim>\<open>stop()\<close> twice in a row, or on an instance on which \<^verbatim>\<open>start()\<close> was
  never called, should complete without an error for both enqueuers. Evaluated on the
  code: on a fresh OrderedEnqueuer the first statement of \<^verbatim>\<open>stop\<close>, line 304, calls
  \<^verbatim>\<open>set()\<close> on the stop signal, which is still \<^verbatim>\<open>None\<close>, and the call ends in an
  \<^verbatim>\<open>AttributeError\<close> with the object unchanged. \<^verbatim>\<open>GeneratorEnqueuer.stop\<close> tests
  \<^verbatim>\<open>is_running()\<close> and the queue against \<^verbatim>\<open>None\<close> first: on a fresh instance it returns
  and leaves the object as it was, and a second call after any first one returns and
  changes nothing.
\<close>

theorem stop_before_start_raises:
  "exec w [Call] (init sq mp sh e0 mx) =
     Some ((init sq mp sh e0 mx)\<lparr>caller := Crashed AttributeError\<rparr>) \<and>
   gen_stop tmo (gen_init g gmp seed) = Inr (gen_init g gmp seed) \<and>
   (\<exists>s1. gen_stop tmo s = Inr s1 \<and> gen_stop tmo' s1 = Inr s1)"
  by (auto simp: init_def call_step_def after_call_def gen_stop_def gen_init_def
        gen_is_running_def Let_def)

subsection \<open>The acknowledgement wait has no timeout\<close>




subsection \<open>The capacity of the queue\<close>

text \<open>
  C5, as stated: in both enqueuers the queue never holds more than \<^verbatim>\<open>C\<close> items and a
  producer whose put would exceed \<^verbatim>\<open>C\<close> blocks. For the GeneratorEnqueuer with worker
  threads this fails. Its queue is \<^verbatim>\<open>queue.Queue()\<close>, without a bound, and all that
  holds a worker back is the test \<^verbatim>\<open>qsize() < max_queue_size\<close> of line 375, made before
  \<^verbatim>\<open>next\<close> and \<^verbatim>\<open>put\<close>: with two workers and \<^verbatim>\<open>max_queue_size = 1\<close> both pass the test
  on the empty queue and both put, no step of the run being blocked, and the queue
  holds two items.
\<close>

theorem thread_queue_exceeds_capacity:
  "gen_limit overfill_start = 1 \<and>
   map_option gen_qsize (gen_exec counter overfill_schedule overfill_start) = Some 2"
  by (simp add: overfill_start_def overfill_schedule_def counter_def gen_qsize_def
        gen_queued_def gen_eval_defs)

text \<open>
  C5, amended. For \<^verbatim>\<open>C >= 1\<close>: the queue of the OrderedEnqueuer, and the queue of the
  GeneratorEnqueuer with worker processes, never hold more than \<^verbatim>\<open>C\<close> items, and a
  put on the full queue of the OrderedEnqueuer is blocked; the queue of the
  GeneratorEnqueuer with \<^verbatim>\<open>W\<close> worker threads is unbounded and never holds more than
  \<^verbatim>\<open>C - 1 + W\<close> items. In both enqueuers \<^verbatim>\<open>get\<close> takes an item only from a queue that
  holds one, and the OrderedEnqueuer's \<^verbatim>\<open>get\<close> takes the one at its head.
\<close>

theorem queue_bounds:
  "(start wk c (init sq mp sh e0 mx) = Inr s0 \<and> exec w ls s0 = Some s \<and> 1 \<le> c
      \<longrightarrow> int (length (queued s)) \<le> c) \<and>
   (gen_exec nxt gls (gen_start gwk c (gen_init g gmp seed)) = Some gs \<and> 1 \<le> c
      \<longrightarrow> int (length (gen_queued gs)) \<le> (if gmp then c else c - 1 + int (nat gwk))) \<and>
   (run_thread s1 = Some (R_put t bs) \<and> queue s1 = Some q \<and> full q
      \<longrightarrow> step w Sched s1 = None) \<and>
   (consumer s1 = G_get \<and> queue s1 = Some q \<and> step w Consume s1 = Some s2
      \<longrightarrow> items q \<noteq> [] \<and> consumer s2 = G_result (hd (items q))) \<and>
   (gen_consumer g1 = GG_get \<and> gen_queue g1 = Some gq \<and> gen_step nxt GenConsume g1 = Some g2
      \<longrightarrow> items gq \<noteq> [])"
proof (intro conjI impI)
  assume a: "start wk c (init sq mp sh e0 mx) = Inr s0 \<and> exec w ls s0 = Some s \<and> 1 \<le> c"
  then have "bounded c s"
    using start_bounded[of wk c sq mp sh e0 mx s0]
    by (auto intro: exec_invariant[where P = "bounded c"] step_bounded)
  with a show "int (length (queued s)) \<le> c"
    by (auto simp: bounded_def queued_def split: option.splits)
next
  assume a: "gen_exec nxt gls (gen_start gwk c (gen_init g gmp seed)) = Some gs \<and> 1 \<le> c"
  then have "gen_bounded (nat gwk) c gmp gs"
    using gen_start_bounded[of c gwk gmp g seed]
    by (auto intro: gen_exec_invariant[where P = "gen_bounded (nat gwk) c gmp"]
          gen_step_gen_bounded)
  then show "int (length (gen_queued gs)) \<le> (if gmp then c else c - 1 + int (nat gwk))"
    by (auto simp: gen_bounded_def gen_queued_def split: option.splits if_splits)
qed (auto simp: step_defs split: option.splits list.splits)

text \<open>The runs above: two futures in a queue of two; two items with two threads and
  \<^verbatim>\<open>C = 1\<close>; a put blocked on the full queue of one, and the gets that follow.\<close>

theorem queue_bounds_witness:
  "int (length (queued order_final)) \<le> 2 \<and>
   int (length (gen_queued overfill_final)) \<le> 1 - 1 + int (nat 2) \<and>
   full (the (queue blocked_state)) \<and>
   step order_world Sched blocked_state = None \<and>
   consumer (the (step order_world Consume blocked_state)) = G_result (0, 0) \<and>
   items (the (gen_queue polled)) \<noteq> []"
proof -
  have o: "start 2 2 (init () False False 0 None) = Inr order_start"
      "exec order_world order_schedule order_start = Some order_final"
    by (simp_all add: order_defs eval_defs)
  have g: "gen_exec counter overfill_schedule (gen_start 2 1 (gen_init 0 False None)) = Some overfill_final"
    by (simp add: overfill_defs gen_eval_defs)
  have b: "run_thread blocked_state = Some (R_put (0, 1) [])"
      "queue blocked_state = Some \<lparr>maxsize = 1, items = [(0, 0)]\<rparr>"
      "full \<lparr>maxsize = 1, items = [(0, 0) :: task]\<rparr>"
      "consumer blocked_state = G_get"
    by (simp_all add: blocked_defs eval_defs)
  have c: "step order_world Consume blocked_state = Some (the (step order_world Consume blocked_state))"
    by (simp add: blocked_defs eval_defs)
  have p: "gen_consumer polled = GG_get" "gen_queue polled = Some \<lparr>maxsize = 0, items = [Some 0, Some 1]\<rparr>"
      "gen_step counter GenConsume polled = Some (the (gen_step counter GenConsume polled))"
    by (simp_all add: overfill_defs gen_eval_defs)
  have 1: "int (length (queued order_final)) \<le> 2"
    using queue_bounds[where wk = 2 and c = 2 and sq = "()" and mp = False
        and sh = False and ?e0.0 = 0 and mx = None and ?s0.0 = order_start and w = order_world
        and ls = order_schedule and s = order_final, THEN conjunct1] o
    by simp
  have 2: "int (length (gen_queued overfill_final)) \<le> 1 - 1 + int (nat 2)"
    using queue_bounds[where c = 1 and nxt = counter
        and gls = overfill_schedule and gwk = 2 and g = 0 and gmp = False and seed = None
        and gs = overfill_final, THEN conjunct2, THEN conjunct1] g
    by simp
  have 3: "step order_world Sched blocked_state = None"
    using queue_bounds[where ?s1.0 = blocked_state and t = "(0, 1)" and bs = Nil
        and q = "\<lparr>maxsize = 1, items = [(0, 0)]\<rparr>" and w = order_world,
        THEN conjunct2, THEN conjunct2, THEN conjunct1] b
    by simp
  have 4: "consumer (the (step order_world Consume blocked_state)) = G_result (0, 0)"
    using queue_bounds[where ?s1.0 = blocked_state
        and q = "\<lparr>maxsize = 1, items = [(0, 0)]\<rparr>"
        and w = order_world and ?s2.0 = "the (step order_world Consume blocked_state)",
        THEN conjunct2, THEN conjunct2, THEN conjunct2, THEN conjunct1] b c
    by simp
  have 5: "items (the (gen_queue polled)) \<noteq> []"
    using queue_bounds[where ?g1.0 = polled and gq = "the (gen_queue polled)" and nxt = counter
        and ?g2.0 = "the (gen_step counter GenConsume polled)",
        THEN conjunct2, THEN conjunct2, THEN conjunct2, THEN conjunct2] p
    by simp
  show ?thesis using 1 2 3 4 5 b by simp
qed


end
